theory Spec2Isabelle
  imports Main "HOL-Library.Sublist"
begin

section \<open>Strings as the page uses them\<close>

text \<open>
  A JavaScript string is a sequence of code units. It is modelled as a \<^typ>\<open>string\<close>
  whose characters are the code units \<open>U+0000\<close> to \<open>U+00FF\<close> (ASCII and the Latin-1
  supplement, with the accented letters of Italian); \<open>of_char\<close> gives the code point.
  Only four string operations occur in the code: \<open>toLowerCase\<close>, \<open>trim\<close>,
  \<open>includes\<close> and \<open>Array.join\<close>.

  \<open>toLowerCase\<close> follows the Unicode case mapping, which in this range works character
  by character: the capitals \<open>A\<close> to \<open>Z\<close> (65 to 90) and \<open>U+00C0\<close> to \<open>U+00DE\<close>
  (192 to 222) without the multiplication sign \<open>U+00D7\<close> (215) go to the letter 32
  places further; every other character is kept.

  \<open>trim\<close> removes from both ends the white space and the line terminators of
  ECMAScript; in this range they are tab, line feed, vertical tab, form feed, carriage
  return, space and the no-break space \<open>U+00A0\<close> (160).
\<close>

definition lowerChar :: "char \<Rightarrow> char" where
  "lowerChar c =
     (let n = (of_char c :: nat) in
      if (65 \<le> n \<and> n \<le> 90) \<or> (192 \<le> n \<and> n \<le> 222 \<and> n \<noteq> 215)
      then char_of (n + 32) else c)"

definition toLowerCase :: "string \<Rightarrow> string" where
  "toLowerCase s = map lowerChar s"

definition isWhiteSpace :: "char \<Rightarrow> bool" where
  "isWhiteSpace c = ((of_char c :: nat) \<in> {9, 10, 11, 12, 13, 32, 160})"

definition trim :: "string \<Rightarrow> string" where
  "trim s = rev (dropWhile isWhiteSpace (rev (dropWhile isWhiteSpace s)))"

text \<open>\<open>hay.includes(needle)\<close>: the needle occurs in the hay as a contiguous run.\<close>

definition str_includes :: "string \<Rightarrow> string \<Rightarrow> bool" where
  "str_includes hay needle = sublist needle hay"

text \<open>
  An optional text read where a text is needed: \<open>x || ''\<close>, and the way
  \<open>Array.prototype.join\<close> renders an element that is \<open>undefined\<close>. The separator of
  \<open>join\<close> is written between every two elements, also around an empty one.
\<close>

definition orEmpty :: "string option \<Rightarrow> string" where
  "orEmpty x = (case x of None \<Rightarrow> [] | Some s \<Rightarrow> s)"

fun join :: "string \<Rightarrow> string option list \<Rightarrow> string" where
  "join sep [] = []"
| "join sep [x] = orEmpty x"
| "join sep (x # y # ys) = orEmpty x @ sep @ join sep (y # ys)"

text \<open>The decimal text of a non-negative integer, as a template literal renders it.\<close>

definition digitChar :: "nat \<Rightarrow> char" where
  "digitChar d = char_of (48 + d)"

fun show_nat :: "nat \<Rightarrow> string" where
  "show_nat n = (if n < 10 then [digitChar n] else show_nat (n div 10) @ [digitChar (n mod 10)])"

declare show_nat.simps [simp del]

section \<open>Data model of \<open>+page.svelte\<close>\<close>

text \<open>
  The optional keys of \<open>extracted_data\<close> are options. \<open>importi\<close> is a
  \<open>Record<string, any>\<close>; its values are kept as text, no operation reads them.
\<close>

record ExtractedData =
  tipo_documento :: "string option"
  data_documento :: "string option"
  soggetti_coinvolti :: "string list option"
  descrizione_breve :: "string option"
  importi :: "(string \<times> string) list option"

record AnalyzedData =
  filename :: string
  extracted_data :: ExtractedData

record Doc =
  doc_id :: string
  name :: string
  uploadedAt :: string
  doc_extracted_data :: ExtractedData

record FilterValues =
  search :: string
  type :: string

record Page =
  documents :: "Doc list"
  filtered :: "Doc list"
  filters :: FilterValues
  loadingError :: string
  isLoading :: bool

definition initialPage :: Page where
  "initialPage =
     \<lparr>documents = [], filtered = [], filters = \<lparr>search = [], type = []\<rparr>,
      loadingError = [], isLoading = False\<rparr>"

section \<open>Filters and search\<close>

text \<open>
  The text that \<open>applyFilters\<close> builds for one document: the array joined with a space
  (\<open>joinedText\<close>), then in lowercase.
\<close>

definition joinedText :: "Doc \<Rightarrow> string" where
  "joinedText doc =
     join '' ''
       ([Some (name doc), tipo_documento (doc_extracted_data doc)]
        @ map Some (case soggetti_coinvolti (doc_extracted_data doc) of None \<Rightarrow> [] | Some xs \<Rightarrow> xs)
        @ [descrizione_breve (doc_extracted_data doc)])"

definition searchableText :: "Doc \<Rightarrow> string" where
  "searchableText doc = toLowerCase (joinedText doc)"

text \<open>The conditions of the two \<open>if\<close> statements of the callback (FILTRO 1, FILTRO 2).\<close>

definition searchMismatch :: "FilterValues \<Rightarrow> Doc \<Rightarrow> bool" where
  "searchMismatch f doc =
     (search f \<noteq> [] \<and> \<not> str_includes (searchableText doc) (toLowerCase (search f)))"

definition typeMismatch :: "FilterValues \<Rightarrow> Doc \<Rightarrow> bool" where
  "typeMismatch f doc =
     (type f \<noteq> [] \<and>
      toLowerCase (orEmpty (tipo_documento (doc_extracted_data doc))) \<noteq> toLowerCase (type f))"

definition filterCallback :: "FilterValues \<Rightarrow> Doc \<Rightarrow> bool" where
  "filterCallback f doc =
     (if searchMismatch f doc then False
      else if typeMismatch f doc then False
      else True)"

definition applyFilters :: "Page \<Rightarrow> Page" where
  "applyFilters p = p\<lparr>filtered := filter (filterCallback (filters p)) (documents p)\<rparr>"

definition onFilter :: "FilterValues \<Rightarrow> Page \<Rightarrow> Page" where
  "onFilter newFilters p = applyFilters (p\<lparr>filters := newFilters\<rparr>)"

text \<open>
  \<open>Filters.svelte\<close>, \<open>applyFilters\<close>: the only caller of \<open>onFilter\<close>. It trims the
  two input texts and hands the pair to the page.
\<close>

definition Filters_applyFilters :: "string \<Rightarrow> string \<Rightarrow> FilterValues" where
  "Filters_applyFilters searchInput typeInput = \<lparr>search = trim searchInput, type = trim typeInput\<rparr>"

text \<open>
  Case-insensitive comparison in the words of the specification, to be compared with what
  \<open>toLowerCase\<close> does: two characters are the same ignoring case when they are equal
  or one is a capital letter and the other its small letter; two texts are equal
  ignoring case when they have the same length and their characters are the same
  ignoring case, place by place.
\<close>

definition capitalLetter :: "char \<Rightarrow> bool" where
  "capitalLetter c =
     (let n = (of_char c :: nat) in
      (65 \<le> n \<and> n \<le> 90) \<or> (192 \<le> n \<and> n \<le> 214) \<or> (216 \<le> n \<and> n \<le> 222))"

definition smallLetterOf :: "char \<Rightarrow> char \<Rightarrow> bool" where
  "smallLetterOf capital small = (capitalLetter capital \<and> (of_char small :: nat) = of_char capital + 32)"

definition sameIgnoringCase :: "char \<Rightarrow> char \<Rightarrow> bool" where
  "sameIgnoringCase c d = (c = d \<or> smallLetterOf c d \<or> smallLetterOf d c)"

definition equalIgnoringCase :: "string \<Rightarrow> string \<Rightarrow> bool" where
  "equalIgnoringCase a b = list_all2 sameIgnoringCase a b"

text \<open>
  The searchable text in the words of the specification, to be compared with
  \<open>searchableText\<close>: the fields that are present, one after the other, in lowercase.
  The specification names no separator; \<open>sep\<close> is the text put between two present
  fields (\<open>[]\<close> for a plain concatenation).
\<close>

definition spec_searchableText :: "string \<Rightarrow> Doc \<Rightarrow> string" where
  "spec_searchableText sep doc =
     toLowerCase (join sep (map Some
       ([name doc]
        @ (case tipo_documento (doc_extracted_data doc) of None \<Rightarrow> [] | Some t \<Rightarrow> [t])
        @ (case soggetti_coinvolti (doc_extracted_data doc) of None \<Rightarrow> [] | Some xs \<Rightarrow> xs)
        @ (case descrizione_breve (doc_extracted_data doc) of None \<Rightarrow> [] | Some t \<Rightarrow> [t]))))"

section \<open>Document management\<close>

text \<open>
  \<open>addDocument\<close> reads the clock twice and draws one random number. The three readings
  are inputs of the model: \<open>now\<close> is \<open>Date.now()\<close> in milliseconds, \<open>random\<close> the text
  that the template literal writes for \<open>Math.random()\<close>, \<open>isoNow\<close> the text of
  \<open>new Date().toISOString()\<close>.
\<close>

record Env =
  now :: nat
  random :: string
  isoNow :: string

definition newId :: "nat \<Rightarrow> string \<Rightarrow> string" where
  "newId t r = show_nat t @ ''-'' @ r"

definition newDoc :: "Env \<Rightarrow> AnalyzedData \<Rightarrow> Doc" where
  "newDoc env analyzedDoc =
     \<lparr>doc_id = newId (now env) (random env),
      name = filename analyzedDoc,
      uploadedAt = isoNow env,
      doc_extracted_data = extracted_data analyzedDoc\<rparr>"

definition addDocument :: "Env \<Rightarrow> AnalyzedData \<Rightarrow> Page \<Rightarrow> Page" where
  "addDocument env analyzedDoc p =
     applyFilters (p\<lparr>documents := newDoc env analyzedDoc # documents p\<rparr>)"

definition deleteDocument :: "string \<Rightarrow> Page \<Rightarrow> Page" where
  "deleteDocument i p =
     applyFilters (p\<lparr>documents := filter (\<lambda>d. doc_id d \<noteq> i) (documents p)\<rparr>)"

text \<open>The filtered view is the one that \<open>applyFilters\<close> computes from the other fields.\<close>

definition inSync :: "Page \<Rightarrow> bool" where
  "inSync p = (filtered p = filter (filterCallback (filters p)) (documents p))"

section \<open>The upload form (\<open>UploadForm.svelte\<close>)\<close>

text \<open>
  Of a \<open>File\<close> the form reads the size only. \<open>maxFileSize\<close> is a whole number of
  megabytes (the page passes 10); sizes and the limit are integers, where the arithmetic
  of JavaScript numbers is exact. \<open>inputFiles\<close> is the selection held by the DOM input
  element, \<open>form_isLoading\<close> the form's own \<open>isLoading\<close>.
\<close>

record File =
  file_name :: string
  file_size :: nat

record UploadForm =
  maxFileSize :: nat
  "file" :: "File option"
  error :: string
  form_isLoading :: bool
  inputFiles :: "File option"

definition onFileChange :: "File option \<Rightarrow> UploadForm \<Rightarrow> UploadForm" where
  "onFileChange selected u =
     (let u1 = u\<lparr>error := [], inputFiles := selected\<rparr> in
      case selected of
        None \<Rightarrow> u1\<lparr>file := None\<rparr>
      | Some selectedFile \<Rightarrow>
          (let maxBytes = maxFileSize u * 1024 * 1024 in
           if file_size selectedFile > maxBytes
           then u1\<lparr>error := ''File troppo grande. Massimo '' @ show_nat (maxFileSize u) @ ''MB consentiti.'',
                   inputFiles := None, file := None\<rparr>
           else u1\<lparr>file := Some selectedFile\<rparr>))"

definition resetForm :: "UploadForm \<Rightarrow> UploadForm" where
  "resetForm u = u\<lparr>file := None, error := [], inputFiles := None\<rparr>"

text \<open>
  What \<open>fetch\<close> and \<open>response.json()\<close> can give \<open>onSubmit\<close>: the request is
  rejected (a network error with its message); the status is not 2xx and the body does
  not parse, or is \<open>null\<close> (reading its \<open>error\<close> raises a \<open>TypeError\<close> with the
  given message), or is a value with or without an \<open>error\<close> text; the status is 2xx
  and the body either does not parse (the message of the exception) or is the analysed
  document, which is how the code types a 2xx body.
\<close>

datatype ErrorBody = ErrorUnparseable | ErrorNull string | ErrorJson "string option"

datatype OkBody = OkUnparseable string | OkJson AnalyzedData

datatype Response = FetchRejected string | NotOk nat ErrorBody | Ok OkBody

text \<open>
  The message of the \<open>Error\<close> thrown for a response that is not ok:
  \<open>errorData.error || `Errore HTTP ${response.status}`\<close>, where \<open>errorData\<close> is the
  parsed body, or the object that the \<open>catch\<close> supplies for a body that does not parse.
\<close>

definition errorOrStatus :: "string option \<Rightarrow> nat \<Rightarrow> string" where
  "errorOrStatus e status = (if orEmpty e \<noteq> [] then orEmpty e else ''Errore HTTP '' @ show_nat status)"

definition thrownMessage :: "nat \<Rightarrow> ErrorBody \<Rightarrow> string" where
  "thrownMessage status body =
     (case body of
        ErrorUnparseable \<Rightarrow> errorOrStatus (Some ''Errore di comunicazione con il server'') status
      | ErrorNull typeError \<Rightarrow> typeError
      | ErrorJson e \<Rightarrow> errorOrStatus e status)"

text \<open>
  The form, the page it reports to (\<open>onAdd\<close> is the page's \<open>addDocument\<close>) and the
  log of the requests sent to the analysis endpoint.
\<close>

record App =
  form :: UploadForm
  page :: Page
  requests :: "File list"

definition onSubmit :: "(File \<Rightarrow> Response) \<Rightarrow> Env \<Rightarrow> App \<Rightarrow> App" where
  "onSubmit fetch env a =
     (let u = (form a)\<lparr>error := []\<rparr> in
      case file u of
        None \<Rightarrow> a\<lparr>form := u\<lparr>error := ''Seleziona un file da caricare''\<rparr>\<rparr>
      | Some fl \<Rightarrow>
          (let sent = a\<lparr>requests := requests a @ [fl]\<rparr> in
           case fetch fl of
             FetchRejected msg \<Rightarrow>
               sent\<lparr>form := u\<lparr>error := msg, form_isLoading := False\<rparr>\<rparr>
           | NotOk status body \<Rightarrow>
               sent\<lparr>form := u\<lparr>error := thrownMessage status body, form_isLoading := False\<rparr>\<rparr>
           | Ok (OkUnparseable msg) \<Rightarrow>
               sent\<lparr>form := u\<lparr>error := msg, form_isLoading := False\<rparr>\<rparr>
           | Ok (OkJson analyzedData) \<Rightarrow>
               sent\<lparr>page := addDocument env analyzedData (page a),
                    form := (resetForm u)\<lparr>form_isLoading := False\<rparr>\<rparr>))"

section \<open>The analysis service\<close>

text \<open>
  Modelled from the spec: the server's \<open>analyze\<close> for a request that names a file by
  path (\<open>backend/app.py\<close>) is not among the sources, only its README is. The
  specification says: the path is canonicalized and must remain within a configured base
  directory, otherwise the request fails with \<open>InvalidInput\<close>; absolute paths and any
  path with a parent-directory segment escaping the root are rejected before any file I/O;
  a missing file fails with \<open>NotFound\<close>. A path is its list of segments and whether it
  is absolute; the file system is a map from locations to texts; \<open>reads\<close> logs the
  locations read; the stages after the read (prompt, completion call, unwrapping) are the
  parameter \<open>rest\<close>.
\<close>

datatype AnalyzeError =
  InvalidInput | PayloadTooLarge | NotFound | ReadError
  | UpstreamUnavailable string | MalformedModelOutput string

text \<open>
  Modelled from the spec: the server's \<open>analyze\<close> for an uploaded file
  (\<open>backend/app.py\<close>) is not among the sources. The specification says: for uploaded
  bytes only a size bound applies (a configurable maximum), and oversized input fails
  with \<open>PayloadTooLarge\<close> before any network call is made; the bytes are decoded as
  text, and unreadable input fails with \<open>ReadError\<close>; a prompt is built from the text
  and sent to the completion backend, whose failure is \<open>UpstreamUnavailable\<close> with the
  upstream message; the envelope and then its inner text are parsed, and a failure of
  either is \<open>MalformedModelOutput\<close> with the raw text; success gives the file name
  and the parsed object. The configuration and the collaborators are the fields of
  \<open>Service\<close>; \<open>generate\<close> gives \<open>Inl\<close> the upstream message or \<open>Inr\<close> the envelope.
\<close>

record 'j Service =
  maxUploadBytes :: nat
  decodeText :: "nat list \<Rightarrow> string option"
  buildPrompt :: "string \<Rightarrow> string"
  generate :: "string \<Rightarrow> string + string"
  parseEnvelope :: "string \<Rightarrow> string option"
  parseObject :: "string \<Rightarrow> 'j option"

record Upload =
  upload_name :: string
  upload_bytes :: "nat list"

text \<open>
  Modelled from the spec: the absent \<open>analyze\<close> of the server for uploaded bytes.
  \<open>calls\<close> logs the prompts sent to the completion backend.
\<close>

definition analyze_upload ::
  "'j Service \<Rightarrow> Upload \<Rightarrow> string list \<Rightarrow> (AnalyzeError + string \<times> 'j) \<times> string list" where
  "analyze_upload svc up calls =
     (if length (upload_bytes up) > maxUploadBytes svc then (Inl PayloadTooLarge, calls)
      else case decodeText svc (upload_bytes up) of
        None \<Rightarrow> (Inl ReadError, calls)
      | Some content \<Rightarrow>
          (let prompt = buildPrompt svc content; called = calls @ [prompt] in
           case generate svc prompt of
             Inl message \<Rightarrow> (Inl (UpstreamUnavailable message), called)
           | Inr envelope \<Rightarrow>
               (case parseEnvelope svc envelope of
                  None \<Rightarrow> (Inl (MalformedModelOutput envelope), called)
                | Some inner \<Rightarrow>
                    (case parseObject svc inner of
                       None \<Rightarrow> (Inl (MalformedModelOutput inner), called)
                     | Some obj \<Rightarrow> (Inr (upload_name up, obj), called)))))"

record PathRequest =
  absolute :: bool
  segments :: "string list"

text \<open>
  Modelled from the spec: the canonicalization of a relative path, which the absent
  server code performs. The segments are walked below the root; the stack holds the
  directories entered, the last one first. \<open>None\<close>: a \<open>..\<close> segment left the root.
\<close>

fun walk :: "string list \<Rightarrow> string list \<Rightarrow> string list option" where
  "walk stack [] = Some stack"
| "walk stack (s # ss) =
     (if s = ''..'' then (case stack of [] \<Rightarrow> None | _ # up \<Rightarrow> walk up ss)
      else if s = ''.'' \<or> s = [] then walk stack ss
      else walk (s # stack) ss)"

definition canonicalize :: "string list \<Rightarrow> string list option" where
  "canonicalize segs = map_option rev (walk [] segs)"

text \<open>
  Modelled from the spec: the absent \<open>analyze\<close> of the server for a path request, up to
  the read of the file. The path is refused before any read when it is absolute or its
  canonicalization leaves the root.
\<close>

definition analyze_path ::
  "string list \<Rightarrow> (string list \<rightharpoonup> string) \<Rightarrow> (string \<Rightarrow> AnalyzeError + 'r) \<Rightarrow>
   PathRequest \<Rightarrow> string list list \<Rightarrow> (AnalyzeError + 'r) \<times> string list list" where
  "analyze_path root fs rest p reads =
     (if absolute p then (Inl InvalidInput, reads)
      else case canonicalize (segments p) of
        None \<Rightarrow> (Inl InvalidInput, reads)
      | Some rel \<Rightarrow>
          (case fs (root @ rel) of
             None \<Rightarrow> (Inl NotFound, reads @ [root @ rel])
           | Some content \<Rightarrow> (rest content, reads @ [root @ rel])))"

text \<open>
  Modelled from the spec: what the specification calls the location a path resolves to,
  whatever the check does. It is the location obtained by resolving the
  segments from the file-system root (an absolute path) or from the configured root (a
  relative one); \<open>..\<close> at the file-system root stays there.
\<close>

fun normalizePath :: "string list \<Rightarrow> string list \<Rightarrow> string list" where
  "normalizePath stack [] = rev stack"
| "normalizePath stack (s # ss) =
     (if s = ''..'' then normalizePath (tl stack) ss
      else if s = ''.'' \<or> s = [] then normalizePath stack ss
      else normalizePath (s # stack) ss)"

definition resolve :: "string list \<Rightarrow> PathRequest \<Rightarrow> string list" where
  "resolve root p = normalizePath [] (if absolute p then segments p else root @ segments p)"

definition outsideRoot :: "string list \<Rightarrow> PathRequest \<Rightarrow> bool" where
  "outsideRoot root p = (\<not> prefix root (resolve root p))"

section \<open>Facts about the string operations\<close>

lemma toLowerCase_Nil_iff [simp]: "toLowerCase s = [] \<longleftrightarrow> s = []"
  and toLowerCase_Nil_iff' [simp]: "[] = toLowerCase s \<longleftrightarrow> s = []"
  and toLowerCase_Nil [simp]: "toLowerCase [] = []"
  by (simp_all add: toLowerCase_def)

lemma str_includes_iff: "str_includes hay needle \<longleftrightarrow> (\<exists>pre post. hay = pre @ needle @ post)"
  by (simp add: str_includes_def sublist_def)

lemma join_Cons: "ys \<noteq> [] \<Longrightarrow> join sep (x # ys) = orEmpty x @ sep @ join sep ys"
  by (cases ys) simp_all

lemma join_entries:
  "sep @ join sep (map Some xs @ [d]) = concat (map (\<lambda>s. sep @ s) xs) @ sep @ orEmpty d"
  by (induction xs) (simp_all add: join_Cons orEmpty_def)

text \<open>The joined text written out: four parts and the separators between them.\<close>

lemma joinedText_eq:
  "joinedText doc =
     name doc @ '' '' @ orEmpty (tipo_documento (doc_extracted_data doc))
       @ concat (map (\<lambda>s. '' '' @ s)
           (case soggetti_coinvolti (doc_extracted_data doc) of None \<Rightarrow> [] | Some xs \<Rightarrow> xs))
       @ '' '' @ orEmpty (descrizione_breve (doc_extracted_data doc))"
  unfolding joinedText_def
  using join_entries [of "'' ''"]
  by (simp add: join_Cons orEmpty_def)

subsection \<open>Lowercase and comparison ignoring case\<close>

lemma of_char_lowerChar:
  "(of_char (lowerChar c) :: nat) =
     (if capitalLetter c then of_char c + 32 else of_char c)"
proof -
  have "(of_char c :: nat) < 256" by simp
  then show ?thesis
    by (auto simp: lowerChar_def capitalLetter_def Let_def)
qed

lemma lowerChar_eq_iff: "lowerChar c = lowerChar d \<longleftrightarrow> sameIgnoringCase c d"
proof -
  have "lowerChar c = lowerChar d \<longleftrightarrow> (of_char (lowerChar c) :: nat) = of_char (lowerChar d)"
    by simp
  also have "\<dots> \<longleftrightarrow> (of_char c :: nat) = of_char d \<or> smallLetterOf c d \<or> smallLetterOf d c"
    unfolding of_char_lowerChar smallLetterOf_def capitalLetter_def by auto
  finally show ?thesis by (simp add: sameIgnoringCase_def)
qed

lemma toLowerCase_eq_iff: "toLowerCase a = toLowerCase b \<longleftrightarrow> equalIgnoringCase a b"
proof (induction a arbitrary: b)
  case Nil
  then show ?case by (simp add: toLowerCase_def equalIgnoringCase_def)
next
  case (Cons x xs)
  then show ?case
    by (cases b) (auto simp: toLowerCase_def equalIgnoringCase_def lowerChar_eq_iff)
qed

lemma toLowerCase_includes_iff:
  "(\<exists>pre post. toLowerCase hay = pre @ toLowerCase needle @ post) \<longleftrightarrow>
   (\<exists>pre found post. hay = pre @ found @ post \<and> equalIgnoringCase found needle)"
proof
  assume "\<exists>pre post. toLowerCase hay = pre @ toLowerCase needle @ post"
  then obtain pre post where "map lowerChar hay = pre @ (map lowerChar needle @ post)"
    by (auto simp: toLowerCase_def)
  from this [THEN map_eq_append_conv [THEN iffD1]]
  obtain us rest where hay: "hay = us @ rest"
    and rest: "map lowerChar needle @ post = map lowerChar rest"
    by blast
  from rest [THEN append_eq_map_conv [THEN iffD1]]
  obtain vs ws where r: "rest = vs @ ws" and v': "map lowerChar needle = map lowerChar vs"
    by blast
  from v' have v: "map lowerChar vs = map lowerChar needle" by (rule sym)
  from v have "equalIgnoringCase vs needle"
    using toLowerCase_eq_iff [of vs needle] by (simp add: toLowerCase_def)
  with hay r have "hay = us @ vs @ ws \<and> equalIgnoringCase vs needle" by simp
  then show "\<exists>pre found post. hay = pre @ found @ post \<and> equalIgnoringCase found needle"
    by blast
next
  assume "\<exists>pre found post. hay = pre @ found @ post \<and> equalIgnoringCase found needle"
  then obtain pre found post where h: "hay = pre @ found @ post"
    and e: "toLowerCase found = toLowerCase needle"
    by (auto simp: toLowerCase_eq_iff)
  have "toLowerCase hay = toLowerCase pre @ toLowerCase found @ toLowerCase post"
    by (simp add: h toLowerCase_def)
  then have "toLowerCase hay = toLowerCase pre @ toLowerCase needle @ toLowerCase post"
    by (simp only: e)
  then show "\<exists>pre post. toLowerCase hay = pre @ toLowerCase needle @ post" by blast
qed

subsection \<open>Trimming\<close>

lemma rev_split: "xs = rev (dropWhile P (rev xs)) @ rev (takeWhile P (rev xs))"
proof -
  have "rev (takeWhile P (rev xs) @ dropWhile P (rev xs)) = rev (rev xs)"
    by (simp only: takeWhile_dropWhile_id)
  then have "rev (dropWhile P (rev xs)) @ rev (takeWhile P (rev xs)) = xs"
    by (simp only: rev_append rev_rev_ident)
  then show ?thesis by (rule sym)
qed

lemma dropWhile_rev_nonempty: "dropWhile P (rev xs) \<noteq> [] \<Longrightarrow> xs \<noteq> []"
  by auto

lemma trim_split:
  "dropWhile isWhiteSpace t = trim t @ rev (takeWhile isWhiteSpace (rev (dropWhile isWhiteSpace t)))"
  unfolding trim_def by (rule rev_split)

lemma trim_frames:
  "\<exists>pre post. t = pre @ trim t @ post \<and> list_all isWhiteSpace pre \<and> list_all isWhiteSpace post"
proof -
  let ?a = "takeWhile isWhiteSpace t"
  let ?b = "rev (takeWhile isWhiteSpace (rev (dropWhile isWhiteSpace t)))"
  have "t = ?a @ dropWhile isWhiteSpace t" by simp
  then have "t = ?a @ trim t @ ?b" using trim_split [of t] by simp
  moreover have "list_all isWhiteSpace ?a"
    by (simp add: list_all_iff) (meson set_takeWhileD)
  moreover have "list_all isWhiteSpace ?b"
    by (simp add: list_all_iff) (meson set_takeWhileD)
  ultimately show ?thesis by blast
qed

lemma trim_ends:
  assumes "trim t \<noteq> []"
  shows "\<not> isWhiteSpace (hd (trim t)) \<and> \<not> isWhiteSpace (last (trim t))"
proof -
  let ?m = "dropWhile isWhiteSpace t"
  let ?r = "dropWhile isWhiteSpace (rev ?m)"
  have r: "?r \<noteq> []" using assms by (simp add: trim_def)
  then have "\<not> isWhiteSpace (hd ?r)" by (rule hd_dropWhile)
  then have l: "\<not> isWhiteSpace (last (trim t))" using r by (simp add: trim_def last_rev)
  from r have m: "?m \<noteq> []" by (rule dropWhile_rev_nonempty)
  then have hm: "\<not> isWhiteSpace (hd ?m)" by (rule hd_dropWhile)
  have "hd ?m = hd (trim t @ rev (takeWhile isWhiteSpace (rev ?m)))"
    using trim_split [of t] by simp
  also have "\<dots> = hd (trim t)" using assms by simp
  finally show ?thesis using hm l by simp
qed


subsection \<open>Decimal texts\<close>

lemma of_char_digitChar: "d < 10 \<Longrightarrow> (of_char (digitChar d) :: nat) = 48 + d"
  by (simp add: digitChar_def)

lemma digitChar_inj:
  assumes "d < 10" "e < 10" "digitChar d = digitChar e"
  shows "d = e"
proof -
  have "(of_char (digitChar d) :: nat) = of_char (digitChar e)"
    by (simp only: assms(3))
  then have "48 + d = 48 + e"
    by (simp only: of_char_digitChar [OF assms(1)] of_char_digitChar [OF assms(2)])
  then show ?thesis by simp
qed

lemma digitChar_not_dash:
  assumes "d < 10"
  shows "digitChar d \<noteq> CHR ''-''"
proof
  assume "digitChar d = CHR ''-''"
  then have "(of_char (digitChar d) :: nat) = of_char (CHR ''-'')" by (simp only:)
  then have "48 + d = (45::nat)" by (simp add: of_char_digitChar [OF assms])
  then show False by simp
qed

lemma show_nat_not_Nil: "show_nat n \<noteq> []"
  by (subst show_nat.simps) simp

lemma length_show_nat: "length (show_nat n) = 1 \<longleftrightarrow> n < 10"
proof (cases "n < 10")
  case True
  then show ?thesis by (subst show_nat.simps) simp
next
  case False
  moreover have "length (show_nat (n div 10)) > 0" using show_nat_not_Nil by blast
  ultimately show ?thesis by (subst show_nat.simps) simp
qed

lemma dash_notin_show_nat: "CHR ''-'' \<notin> set (show_nat n)"
proof (induction n rule: show_nat.induct)
  case (1 n)
  show ?case
  proof (cases "n < 10")
    case True
    then show ?thesis
      using digitChar_not_dash [of n] by (subst show_nat.simps) auto
  next
    case False
    then show ?thesis
      using "1.IH" digitChar_not_dash [of "n mod 10"] by (subst show_nat.simps) auto
  qed
qed

lemma show_nat_inj: "show_nat n = show_nat m \<Longrightarrow> n = m"
proof (induction n arbitrary: m rule: show_nat.induct)
  case (1 n)
  show ?case
  proof (cases "n < 10")
    case n: True
    show ?thesis
    proof (cases "m < 10")
      case True
      with n "1.prems" have "digitChar n = digitChar m"
        by (simp add: show_nat.simps [of n] show_nat.simps [of m])
      with n True show ?thesis by (rule digitChar_inj)
    next
      case False
      with n "1.prems" length_show_nat [of n] length_show_nat [of m] show ?thesis
        by simp
    qed
  next
    case n: False
    show ?thesis
    proof (cases "m < 10")
      case True
      with n "1.prems" length_show_nat [of n] length_show_nat [of m] show ?thesis
        by simp
    next
      case False
      with n "1.prems" have eq: "show_nat (n div 10) = show_nat (m div 10)"
        and d: "digitChar (n mod 10) = digitChar (m mod 10)"
        by (simp_all add: show_nat.simps [of n] show_nat.simps [of m])
      from "1.IH" [OF n eq] have "n div 10 = m div 10" .
      moreover have "n mod 10 < 10" "m mod 10 < 10" by simp_all
      then have "n mod 10 = m mod 10" using d by (rule digitChar_inj)
      ultimately have "n div 10 * 10 + n mod 10 = m div 10 * 10 + m mod 10" by simp
      then show ?thesis by (simp only: div_mult_mod_eq)
    qed
  qed
qed

lemma takeWhile_first: "a \<notin> set xs \<Longrightarrow> takeWhile (\<lambda>c. c \<noteq> a) (xs @ a # ys) = xs"
  by (induction xs) auto

lemma split_at_first:
  assumes "a \<notin> set xs" "a \<notin> set xs'" "xs @ a # ys = xs' @ a # ys'"
  shows "xs = xs' \<and> ys = ys'"
proof -
  have "takeWhile (\<lambda>c. c \<noteq> a) (xs @ a # ys) = xs" "takeWhile (\<lambda>c. c \<noteq> a) (xs' @ a # ys') = xs'"
    using assms(1,2) by (simp_all add: takeWhile_first)
  with assms(3) have "xs = xs'" by simp
  with assms(3) show ?thesis by simp
qed

text \<open>Two ids are the same text only if they come from the same clock reading and draw.\<close>

lemma newId_inj: "newId t r = newId t' r' \<longleftrightarrow> t = t' \<and> r = r'"
proof
  assume "newId t r = newId t' r'"
  then have "show_nat t @ CHR ''-'' # r = show_nat t' @ CHR ''-'' # r'"
    by (simp add: newId_def)
  from split_at_first [OF dash_notin_show_nat dash_notin_show_nat this]
  show "t = t' \<and> r = r'" by (auto dest: show_nat_inj)
qed simp

section \<open>Facts about the page\<close>

lemma filterCallback_eq: "filterCallback f = (\<lambda>d. \<not> searchMismatch f d \<and> \<not> typeMismatch f d)"
  by (rule ext) (simp add: filterCallback_def)

lemma documents_applyFilters [simp]: "documents (applyFilters p) = documents p"
  and filters_applyFilters [simp]: "filters (applyFilters p) = filters p"
  by (simp_all add: applyFilters_def)

text \<open>
  Every operation of the page ends with \<open>applyFilters\<close>, so the page is in sync from
  the start and after each of them.
\<close>

lemma inSync_initialPage: "inSync initialPage"
  by (simp add: inSync_def initialPage_def)

lemma inSync_applyFilters [simp]: "inSync (applyFilters p)"
  by (simp add: inSync_def applyFilters_def)

lemma inSync_operations:
  "inSync (addDocument env a p)" "inSync (deleteDocument i p)" "inSync (onFilter q p)"
  by (simp_all add: addDocument_def deleteDocument_def onFilter_def)

section \<open>The filtered view\<close>

text \<open>
  Claim C1, as the code has it. Given the two input texts of the filter form, a document
  is in the filtered view iff it is in the collection, the lowercase of the trimmed
  search input occurs in the lowercase of its joined text, and the type filter does not
  exclude it. The joined text is: the name, a space, \<open>tipo_documento\<close> (empty when
  absent), a space and the entry for each entry of \<open>soggetti_coinvolti\<close>, a space,
  \<open>descrizione_breve\<close> (empty when absent). The lowercase texts match exactly when the
  trimmed input occurs in the joined text ignoring case. The trimmed input is the input
  without the white space around it: only white space is cut off, and what is left
  neither starts nor ends with white space. A search input that is empty after trimming
  excludes nothing.
\<close>

theorem search_filter_view:
  "joinedText d =
     name d @ '' '' @ orEmpty (tipo_documento (doc_extracted_data d))
       @ concat (map (\<lambda>e. '' '' @ e)
           (case soggetti_coinvolti (doc_extracted_data d) of None \<Rightarrow> [] | Some xs \<Rightarrow> xs))
       @ '' '' @ orEmpty (descrizione_breve (doc_extracted_data d))
   \<and> (d \<in> set (filtered (onFilter (Filters_applyFilters s t) p)) \<longleftrightarrow>
        d \<in> set (documents p)
        \<and> (\<exists>pre post. toLowerCase (joinedText d) = pre @ toLowerCase (trim s) @ post)
        \<and> \<not> typeMismatch (Filters_applyFilters s t) d)
   \<and> ((\<exists>pre post. toLowerCase (joinedText d) = pre @ toLowerCase (trim s) @ post) \<longleftrightarrow>
        (\<exists>pre found post. joinedText d = pre @ found @ post \<and> equalIgnoringCase found (trim s)))
   \<and> (\<exists>pre post. s = pre @ trim s @ post \<and> list_all isWhiteSpace pre \<and> list_all isWhiteSpace post)
   \<and> (trim s \<noteq> [] \<longrightarrow> \<not> isWhiteSpace (hd (trim s)) \<and> \<not> isWhiteSpace (last (trim s)))
   \<and> (trim s = [] \<longrightarrow> \<not> searchMismatch (Filters_applyFilters s t) d)"
proof -
  let ?q = "Filters_applyFilters s t"
  have q: "search ?q = trim s" by (simp add: Filters_applyFilters_def)
  have sm: "\<not> searchMismatch ?q d \<longleftrightarrow>
      (\<exists>pre post. toLowerCase (joinedText d) = pre @ toLowerCase (trim s) @ post)"
  proof (cases "trim s = []")
    case True
    have "toLowerCase (joinedText d) = [] @ toLowerCase (joinedText d)" by simp
    then have "\<exists>pre post. toLowerCase (joinedText d) = pre @ post" by blast
    with True show ?thesis by (simp add: searchMismatch_def q)
  next
    case False
    then show ?thesis
      by (simp add: searchMismatch_def q str_includes_iff searchableText_def)
  qed
  have "d \<in> set (filtered (onFilter ?q p)) \<longleftrightarrow>
      d \<in> set (documents p) \<and> \<not> searchMismatch ?q d \<and> \<not> typeMismatch ?q d"
    by (simp add: onFilter_def applyFilters_def filterCallback_eq)
  then have view: "d \<in> set (filtered (onFilter ?q p)) \<longleftrightarrow>
      d \<in> set (documents p)
      \<and> (\<exists>pre post. toLowerCase (joinedText d) = pre @ toLowerCase (trim s) @ post)
      \<and> \<not> typeMismatch ?q d"
    by (simp only: sm)
  have empty: "trim s = [] \<longrightarrow> \<not> searchMismatch ?q d"
    by (simp add: searchMismatch_def q)
  have ends: "trim s \<noteq> [] \<longrightarrow> \<not> isWhiteSpace (hd (trim s)) \<and> \<not> isWhiteSpace (last (trim s))"
    using trim_ends [of s] by blast
  from joinedText_eq [of d] view toLowerCase_includes_iff [of "joinedText d" "trim s"]
    trim_frames [of s] ends empty
  show ?thesis by (intro conjI)
qed

text \<open>
  The theorem at work: the document named \<open>SOCIETA.pdf\<close> with a grave accent on the
  capital A (\<open>U+00C0\<close>) is found by the input made of a no-break space, \<open>societa\<close>
  with the small accented letter (\<open>U+00E0\<close>) and a space; an input of a space and a
  no-break space excludes nothing.
\<close>

theorem search_filter_view_witness:
  "\<lparr>doc_id = ''1'', name = ''SOCIET'' @ [CHR 0xC0] @ ''.pdf'', uploadedAt = [],
     doc_extracted_data = \<lparr>tipo_documento = Some ''Fattura'', data_documento = None,
       soggetti_coinvolti = None, descrizione_breve = None, importi = None\<rparr>\<rparr>
   \<in> set (filtered (onFilter (Filters_applyFilters ([CHR 0xA0] @ ''societ'' @ [CHR 0xE0] @ '' '') [])
       (initialPage\<lparr>documents := [\<lparr>doc_id = ''1'', name = ''SOCIET'' @ [CHR 0xC0] @ ''.pdf'', uploadedAt = [],
     doc_extracted_data = \<lparr>tipo_documento = Some ''Fattura'', data_documento = None,
       soggetti_coinvolti = None, descrizione_breve = None, importi = None\<rparr>\<rparr>]\<rparr>)))
   \<and> trim ('' '' @ [CHR 0xA0]) = []
   \<and> \<not> searchMismatch (Filters_applyFilters ('' '' @ [CHR 0xA0]) [])
       \<lparr>doc_id = ''1'', name = ''SOCIET'' @ [CHR 0xC0] @ ''.pdf'', uploadedAt = [],
     doc_extracted_data = \<lparr>tipo_documento = Some ''Fattura'', data_documento = None,
       soggetti_coinvolti = None, descrizione_breve = None, importi = None\<rparr>\<rparr>"
proof -
  let ?d = "\<lparr>doc_id = ''1'', name = ''SOCIET'' @ [CHR 0xC0] @ ''.pdf'', uploadedAt = [],
     doc_extracted_data = \<lparr>tipo_documento = Some ''Fattura'', data_documento = None,
       soggetti_coinvolti = None, descrizione_breve = None, importi = None\<rparr>\<rparr>"
  let ?s = "([CHR 0xA0] @ ''societ'' @ [CHR 0xE0] @ '' '')"
  let ?p = "initialPage\<lparr>documents := [?d]\<rparr>"
  have member: "?d \<in> set (documents ?p)" by simp
  have "toLowerCase (joinedText ?d) = [] @ toLowerCase (trim ?s) @ ''.pdf fattura ''"
    by code_simp
  then have found: "\<exists>pre post. toLowerCase (joinedText ?d) = pre @ toLowerCase (trim ?s) @ post"
    by blast
  have passes: "\<not> typeMismatch (Filters_applyFilters ?s []) ?d" by code_simp
  have blank: "trim ('' '' @ [CHR 0xA0]) = []" by code_simp
  from search_filter_view [of ?d ?s "[]" ?p] member found passes
  have "?d \<in> set (filtered (onFilter (Filters_applyFilters ?s []) ?p))"
    by (simp only: simp_thms)
  moreover from search_filter_view [of ?d "'' '' @ [CHR 0xA0]" "[]" ?p] blank
  have "\<not> searchMismatch (Filters_applyFilters ('' '' @ [CHR 0xA0]) []) ?d"
    by (simp only: simp_thms)
  ultimately show ?thesis using blank by (simp only: simp_thms)
qed

text \<open>
  Claim C1 as it is written fails. Read as a plain concatenation, the searchable text of
  a document named \<open>ab\<close> of type \<open>cd\<close> is \<open>abcd\<close> and contains \<open>bc\<close>; the
  code builds \<open>ab cd \<close> and leaves the document out. Read with a space between the
  present fields, a document named \<open>a\<close> with no type and the description \<open>b\<close> has
  the text \<open>a b\<close>; the code keeps the place of the absent type, builds \<open>a  b\<close> with
  two spaces, and leaves the document out of the search for \<open>a b\<close>.
\<close>

theorem search_filter_view_counterexample:
  "str_includes
     (spec_searchableText []
        \<lparr>doc_id = ''1'', name = ''ab'', uploadedAt = [],
         doc_extracted_data = \<lparr>tipo_documento = Some ''cd'', data_documento = None,
           soggetti_coinvolti = None, descrizione_breve = None, importi = None\<rparr>\<rparr>)
     (toLowerCase (trim ''bc''))
   \<and> \<lparr>doc_id = ''1'', name = ''ab'', uploadedAt = [],
       doc_extracted_data = \<lparr>tipo_documento = Some ''cd'', data_documento = None,
         soggetti_coinvolti = None, descrizione_breve = None, importi = None\<rparr>\<rparr>
     \<notin> set (filtered (onFilter (Filters_applyFilters ''bc'' [])
         (initialPage\<lparr>documents :=
           [\<lparr>doc_id = ''1'', name = ''ab'', uploadedAt = [],
             doc_extracted_data = \<lparr>tipo_documento = Some ''cd'', data_documento = None,
               soggetti_coinvolti = None, descrizione_breve = None, importi = None\<rparr>\<rparr>]\<rparr>)))
   \<and> str_includes
     (spec_searchableText '' ''
        \<lparr>doc_id = ''2'', name = ''a'', uploadedAt = [],
         doc_extracted_data = \<lparr>tipo_documento = None, data_documento = None,
           soggetti_coinvolti = None, descrizione_breve = Some ''b'', importi = None\<rparr>\<rparr>)
     (toLowerCase (trim ''a b''))
   \<and> \<lparr>doc_id = ''2'', name = ''a'', uploadedAt = [],
       doc_extracted_data = \<lparr>tipo_documento = None, data_documento = None,
         soggetti_coinvolti = None, descrizione_breve = Some ''b'', importi = None\<rparr>\<rparr>
     \<notin> set (filtered (onFilter (Filters_applyFilters ''a b'' [])
         (initialPage\<lparr>documents :=
           [\<lparr>doc_id = ''2'', name = ''a'', uploadedAt = [],
             doc_extracted_data = \<lparr>tipo_documento = None, data_documento = None,
               soggetti_coinvolti = None, descrizione_breve = Some ''b'', importi = None\<rparr>\<rparr>]\<rparr>)))"
  by code_simp

text \<open>
  Claim C2. With the query that the filter form builds from its inputs, a document passes
  the type filter iff the type text of the query is empty or the document has a
  \<open>tipo_documento\<close> that equals the trimmed type input ignoring case: the same length
  and, place by place, the same character or a capital letter and its small letter. The
  query's type text is the trimmed input, which is the input without the white space
  around it: only white space is cut off, and what is left neither starts nor ends with
  white space. A document without \<open>tipo_documento\<close> passes no type filter that is not
  empty.
\<close>

theorem type_filter_predicate:
  "(\<not> typeMismatch (Filters_applyFilters s t) d \<longleftrightarrow>
      type (Filters_applyFilters s t) = []
      \<or> (\<exists>ty. tipo_documento (doc_extracted_data d) = Some ty \<and> equalIgnoringCase ty (trim t)))
   \<and> type (Filters_applyFilters s t) = trim t
   \<and> (\<exists>pre post. t = pre @ trim t @ post \<and> list_all isWhiteSpace pre \<and> list_all isWhiteSpace post)
   \<and> (trim t \<noteq> [] \<longrightarrow> \<not> isWhiteSpace (hd (trim t)) \<and> \<not> isWhiteSpace (last (trim t)))
   \<and> (tipo_documento (doc_extracted_data d) = None \<and> trim t \<noteq> []
        \<longrightarrow> typeMismatch (Filters_applyFilters s t) d)"
proof -
  let ?q = "Filters_applyFilters s t"
  have q: "type ?q = trim t" by (simp add: Filters_applyFilters_def)
  have passes: "\<not> typeMismatch ?q d \<longleftrightarrow>
      type ?q = []
      \<or> (\<exists>ty. tipo_documento (doc_extracted_data d) = Some ty \<and> equalIgnoringCase ty (trim t))"
  proof (cases "tipo_documento (doc_extracted_data d)")
    case None
    then show ?thesis by (simp add: typeMismatch_def q orEmpty_def)
  next
    case (Some ty)
    then show ?thesis
      using toLowerCase_eq_iff [of ty "trim t"]
      by (auto simp: typeMismatch_def q orEmpty_def equalIgnoringCase_def)
  qed
  have absent: "tipo_documento (doc_extracted_data d) = None \<and> trim t \<noteq> [] \<longrightarrow> typeMismatch ?q d"
    by (simp add: typeMismatch_def q orEmpty_def)
  have ends: "trim t \<noteq> [] \<longrightarrow> \<not> isWhiteSpace (hd (trim t)) \<and> \<not> isWhiteSpace (last (trim t))"
    using trim_ends [of t] by blast
  from passes q trim_frames [of t] ends absent show ?thesis by (intro conjI)
qed

text \<open>
  The theorem at work: the type \<open>Citta\<close> with the small accented letter
  (\<open>U+00E0\<close>) passes the input made of a space, \<open>CITTA\<close> with the capital accented
  letter (\<open>U+00C0\<close>) and a no-break space; a document without a type does not pass the
  input \<open>" fattura "\<close>.
\<close>

theorem type_filter_predicate_witness:
  "\<not> typeMismatch (Filters_applyFilters [] ('' CITT'' @ [CHR 0xC0, CHR 0xA0]))
     \<lparr>doc_id = ''2'', name = ''Residenza'', uploadedAt = [],
      doc_extracted_data = \<lparr>tipo_documento = Some (''Citt'' @ [CHR 0xE0]), data_documento = None,
        soggetti_coinvolti = None, descrizione_breve = None, importi = None\<rparr>\<rparr>
   \<and> typeMismatch (Filters_applyFilters [] '' fattura '')
     \<lparr>doc_id = ''3'', name = ''Scan'', uploadedAt = [],
      doc_extracted_data = \<lparr>tipo_documento = None, data_documento = None,
        soggetti_coinvolti = None, descrizione_breve = None, importi = None\<rparr>\<rparr>"
proof -
  let ?d = "\<lparr>doc_id = ''2'', name = ''Residenza'', uploadedAt = [],
      doc_extracted_data = \<lparr>tipo_documento = Some (''Citt'' @ [CHR 0xE0]), data_documento = None,
        soggetti_coinvolti = None, descrizione_breve = None, importi = None\<rparr>\<rparr>"
  let ?e = "\<lparr>doc_id = ''3'', name = ''Scan'', uploadedAt = [],
      doc_extracted_data = \<lparr>tipo_documento = None, data_documento = None,
        soggetti_coinvolti = None, descrizione_breve = None, importi = None\<rparr>\<rparr>"
  let ?t = "('' CITT'' @ [CHR 0xC0, CHR 0xA0])"
  have "tipo_documento (doc_extracted_data ?d) = Some (''Citt'' @ [CHR 0xE0])
      \<and> equalIgnoringCase (''Citt'' @ [CHR 0xE0]) (trim ?t)"
    by code_simp
  then have "\<exists>ty. tipo_documento (doc_extracted_data ?d) = Some ty \<and> equalIgnoringCase ty (trim ?t)"
    by blast
  with type_filter_predicate [of "[]" ?t ?d]
  have match: "\<not> typeMismatch (Filters_applyFilters [] ?t) ?d"
    by (simp only: simp_thms)
  have "tipo_documento (doc_extracted_data ?e) = None \<and> trim '' fattura '' \<noteq> []"
    by code_simp
  with type_filter_predicate [of "[]" "'' fattura ''" ?e]
  have "typeMismatch (Filters_applyFilters [] '' fattura '') ?e"
    by (simp only: simp_thms)
  with match show ?thesis by (simp only: simp_thms)
qed

text \<open>
  Claim C3. The filtered view computed from a collection and a query holds exactly the
  documents that pass both filters, in the order of the collection; the collection itself
  is not changed.
\<close>

theorem filtered_view_conjunction:
  "filtered (onFilter q p) =
     filter (\<lambda>d. \<not> searchMismatch q d \<and> \<not> typeMismatch q d) (documents p)
   \<and> documents (onFilter q p) = documents p
   \<and> set (filtered (onFilter q p)) \<subseteq> set (documents p)
   \<and> subseq (filtered (onFilter q p)) (documents p)"
  by (simp add: onFilter_def applyFilters_def filterCallback_eq)

section \<open>Inserting and removing documents\<close>

text \<open>
  Claim C4, as the code has it. \<open>addDocument\<close> puts in front of the collection a new
  document made of the id text (clock reading, a dash, the random draw), the file name,
  the timestamp and the extracted data; the documents already there follow unchanged; the
  filtered view is computed again from the new collection and the filters are kept. The
  id is the id of a clock reading and a draw exactly when these are the ones just read:
  nothing compares it with the ids already in the collection.
\<close>

theorem addDocument_prepends:
  "documents (addDocument env a p) =
     \<lparr>doc_id = show_nat (now env) @ ''-'' @ random env, name = filename a,
      uploadedAt = isoNow env, doc_extracted_data = extracted_data a\<rparr> # documents p
   \<and> filtered (addDocument env a p) =
       filter (filterCallback (filters p)) (documents (addDocument env a p))
   \<and> filters (addDocument env a p) = filters p
   \<and> (doc_id (hd (documents (addDocument env a p))) = newId t r \<longleftrightarrow> now env = t \<and> random env = r)"
  by (simp add: addDocument_def applyFilters_def newDoc_def newId_inj) (simp add: newId_def)

text \<open>
  Claim C4 as it is written fails: two insertions that read the same clock value and draw
  the same random number give two documents with one id.
\<close>

theorem addDocument_prepends_counterexample:
  "\<not> distinct (map doc_id (documents
     (addDocument \<lparr>now = 1700000000000, random = ''0.5'', isoNow = ''2023-11-14T22:13:20.000Z''\<rparr>
        \<lparr>filename = ''b.txt'', extracted_data = \<lparr>tipo_documento = None, data_documento = None,
           soggetti_coinvolti = None, descrizione_breve = None, importi = None\<rparr>\<rparr>
     (addDocument \<lparr>now = 1700000000000, random = ''0.5'', isoNow = ''2023-11-14T22:13:20.000Z''\<rparr>
        \<lparr>filename = ''a.txt'', extracted_data = \<lparr>tipo_documento = None, data_documento = None,
           soggetti_coinvolti = None, descrizione_breve = None, importi = None\<rparr>\<rparr>
      initialPage))))"
  by (simp add: addDocument_def applyFilters_def newDoc_def)

text \<open>
  Claim C5, as the code has it. When no document of the collection has the id that the
  insertion generates, removing that id right after the insertion gives the collection
  back, document by document; from a page in sync the whole page is as before.
\<close>

theorem insert_then_remove:
  assumes "newId (now env) (random env) \<notin> doc_id ` set (documents p)"
  shows "documents (deleteDocument (newId (now env) (random env)) (addDocument env a p)) = documents p
         \<and> (inSync p \<longrightarrow> deleteDocument (newId (now env) (random env)) (addDocument env a p) = p)"
proof -
  have keep: "filter (\<lambda>d. doc_id d \<noteq> newId (now env) (random env)) (documents p) = documents p"
    using assms by (intro filter_True) (auto simp: image_iff)
  show ?thesis
    by (simp add: deleteDocument_def addDocument_def applyFilters_def newDoc_def keep inSync_def)
qed

theorem insert_then_remove_witness:
  "deleteDocument (newId 1700000000001 ''0.25'')
     (addDocument \<lparr>now = 1700000000001, random = ''0.25'', isoNow = ''2023-11-14T22:13:20.001Z''\<rparr>
        \<lparr>filename = ''b.txt'', extracted_data = \<lparr>tipo_documento = None, data_documento = None,
           soggetti_coinvolti = None, descrizione_breve = None, importi = None\<rparr>\<rparr>
     (addDocument \<lparr>now = 1700000000000, random = ''0.5'', isoNow = ''2023-11-14T22:13:20.000Z''\<rparr>
        \<lparr>filename = ''a.txt'', extracted_data = \<lparr>tipo_documento = None, data_documento = None,
           soggetti_coinvolti = None, descrizione_breve = None, importi = None\<rparr>\<rparr>
      initialPage))
   = addDocument \<lparr>now = 1700000000000, random = ''0.5'', isoNow = ''2023-11-14T22:13:20.000Z''\<rparr>
        \<lparr>filename = ''a.txt'', extracted_data = \<lparr>tipo_documento = None, data_documento = None,
           soggetti_coinvolti = None, descrizione_breve = None, importi = None\<rparr>\<rparr>
      initialPage"
proof -
  let ?p = "addDocument \<lparr>now = 1700000000000, random = ''0.5'', isoNow = ''2023-11-14T22:13:20.000Z''\<rparr>
        \<lparr>filename = ''a.txt'', extracted_data = \<lparr>tipo_documento = None, data_documento = None,
           soggetti_coinvolti = None, descrizione_breve = None, importi = None\<rparr>\<rparr>
      initialPage"
  let ?env = "\<lparr>now = 1700000000001, random = ''0.25'', isoNow = ''2023-11-14T22:13:20.001Z''\<rparr>"
  have fresh: "newId (now ?env) (random ?env) \<notin> doc_id ` set (documents ?p)"
    by (simp add: addDocument_def newDoc_def newId_inj initialPage_def)
  have sync: "inSync ?p" by (rule inSync_operations)
  from insert_then_remove [OF fresh] sync show ?thesis by simp
qed

text \<open>
  Claim C5 as it is written fails: after two insertions with the same clock value and the
  same random number, removing the generated id removes both documents, and the
  collection is not the one before the second insertion.
\<close>

theorem insert_then_remove_counterexample:
  "documents
     (deleteDocument (newId 1700000000000 ''0.5'')
       (addDocument \<lparr>now = 1700000000000, random = ''0.5'', isoNow = ''2023-11-14T22:13:20.000Z''\<rparr>
          \<lparr>filename = ''b.txt'', extracted_data = \<lparr>tipo_documento = None, data_documento = None,
             soggetti_coinvolti = None, descrizione_breve = None, importi = None\<rparr>\<rparr>
       (addDocument \<lparr>now = 1700000000000, random = ''0.5'', isoNow = ''2023-11-14T22:13:20.000Z''\<rparr>
          \<lparr>filename = ''a.txt'', extracted_data = \<lparr>tipo_documento = None, data_documento = None,
             soggetti_coinvolti = None, descrizione_breve = None, importi = None\<rparr>\<rparr>
        initialPage)))
   \<noteq> documents
     (addDocument \<lparr>now = 1700000000000, random = ''0.5'', isoNow = ''2023-11-14T22:13:20.000Z''\<rparr>
        \<lparr>filename = ''a.txt'', extracted_data = \<lparr>tipo_documento = None, data_documento = None,
           soggetti_coinvolti = None, descrizione_breve = None, importi = None\<rparr>\<rparr>
      initialPage)"
  by (simp add: deleteDocument_def addDocument_def applyFilters_def newDoc_def initialPage_def)

text \<open>
  Claim C8. \<open>deleteDocument\<close> keeps the documents whose id is not the given one, in
  their order, and computes the filtered view again from what it kept. When no document
  has the id, the collection is the same, and a page in sync is the same page: the
  function has no failing branch.
\<close>

theorem deleteDocument_removes:
  "documents (deleteDocument i p) = filter (\<lambda>d. doc_id d \<noteq> i) (documents p)
   \<and> subseq (documents (deleteDocument i p)) (documents p)
   \<and> filtered (deleteDocument i p) = filter (filterCallback (filters p)) (documents (deleteDocument i p))
   \<and> (i \<notin> doc_id ` set (documents p) \<longrightarrow>
        documents (deleteDocument i p) = documents p \<and> (inSync p \<longrightarrow> deleteDocument i p = p))"
proof -
  have absent: "filter (\<lambda>d. doc_id d \<noteq> i) (documents p) = documents p"
    if "i \<notin> doc_id ` set (documents p)"
    using that by (intro filter_True) (auto simp: image_iff)
  show ?thesis
    by (auto simp: deleteDocument_def applyFilters_def absent inSync_def)
qed

theorem deleteDocument_removes_witness:
  "deleteDocument ''missing''
     (addDocument \<lparr>now = 1700000000000, random = ''0.5'', isoNow = ''2023-11-14T22:13:20.000Z''\<rparr>
        \<lparr>filename = ''a.txt'', extracted_data = \<lparr>tipo_documento = None, data_documento = None,
           soggetti_coinvolti = None, descrizione_breve = None, importi = None\<rparr>\<rparr>
      initialPage)
   = addDocument \<lparr>now = 1700000000000, random = ''0.5'', isoNow = ''2023-11-14T22:13:20.000Z''\<rparr>
        \<lparr>filename = ''a.txt'', extracted_data = \<lparr>tipo_documento = None, data_documento = None,
           soggetti_coinvolti = None, descrizione_breve = None, importi = None\<rparr>\<rparr>
      initialPage"
proof -
  let ?p = "addDocument \<lparr>now = 1700000000000, random = ''0.5'', isoNow = ''2023-11-14T22:13:20.000Z''\<rparr>
        \<lparr>filename = ''a.txt'', extracted_data = \<lparr>tipo_documento = None, data_documento = None,
           soggetti_coinvolti = None, descrizione_breve = None, importi = None\<rparr>\<rparr>
      initialPage"
  have "CHR ''-'' \<in> set (newId 1700000000000 ''0.5'')"
    by (simp add: newId_def)
  then have "newId 1700000000000 ''0.5'' \<noteq> ''missing''"
    by auto
  then have absent: "''missing'' \<notin> doc_id ` set (documents ?p)"
    by (simp add: addDocument_def newDoc_def initialPage_def)
  have sync: "inSync ?p" by (rule inSync_operations)
  from deleteDocument_removes [of "''missing''" ?p] absent sync show ?thesis
    by (simp only: simp_thms)
qed

section \<open>Uploading\<close>

text \<open>
  Claim C6. A file is selected and the analysis fails: the response is not 2xx, or it is
  2xx and its body does not parse (or the request itself is rejected). Then the page, and
  with it the collection and the filtered view, is as before, and the form shows the
  message: the \<open>error\<close> text of the response body when it has one that is not empty,
  the fixed text for a body that does not parse, \<open>Errore HTTP\<close> and the status when the
  body has no \<open>error\<close> text, and the message of the exception for a \<open>null\<close> body, a
  2xx body that does not parse and a rejected request. The form is no longer loading, and
  one request was sent.
\<close>

theorem onSubmit_failed_analysis:
  assumes "file (form a) = Some fl"
    and "fetch fl = NotOk status (ErrorJson (Some msg)) \<and> msg \<noteq> []
         \<or> fetch fl = NotOk status ErrorUnparseable \<and> msg = ''Errore di comunicazione con il server''
         \<or> (\<exists>e. fetch fl = NotOk status (ErrorJson e) \<and> orEmpty e = []
                \<and> msg = ''Errore HTTP '' @ show_nat status)
         \<or> fetch fl = NotOk status (ErrorNull msg)
         \<or> fetch fl = Ok (OkUnparseable msg)
         \<or> fetch fl = FetchRejected msg"
  shows "page (onSubmit fetch env a) = page a
         \<and> error (form (onSubmit fetch env a)) = msg
         \<and> form_isLoading (form (onSubmit fetch env a)) = False
         \<and> requests (onSubmit fetch env a) = requests a @ [fl]"
  using assms by (auto simp: onSubmit_def thrownMessage_def errorOrStatus_def orEmpty_def Let_def)

theorem onSubmit_failed_analysis_witness:
  "page (onSubmit (\<lambda>f. NotOk 500 (ErrorJson (Some ''Modello non raggiungibile'')))
           \<lparr>now = 1700000000000, random = ''0.5'', isoNow = ''2023-11-14T22:13:20.000Z''\<rparr>
           \<lparr>form = \<lparr>maxFileSize = 10, file = Some \<lparr>file_name = ''a.txt'', file_size = 2048\<rparr>,
                     error = [], form_isLoading = False,
                     inputFiles = Some \<lparr>file_name = ''a.txt'', file_size = 2048\<rparr>\<rparr>,
            page = initialPage, requests = []\<rparr>) = initialPage
   \<and> error (form (onSubmit (\<lambda>f. NotOk 500 (ErrorJson (Some ''Modello non raggiungibile'')))
           \<lparr>now = 1700000000000, random = ''0.5'', isoNow = ''2023-11-14T22:13:20.000Z''\<rparr>
           \<lparr>form = \<lparr>maxFileSize = 10, file = Some \<lparr>file_name = ''a.txt'', file_size = 2048\<rparr>,
                     error = [], form_isLoading = False,
                     inputFiles = Some \<lparr>file_name = ''a.txt'', file_size = 2048\<rparr>\<rparr>,
            page = initialPage, requests = []\<rparr>)) = ''Modello non raggiungibile''"
proof -
  let ?fl = "\<lparr>file_name = ''a.txt'', file_size = 2048\<rparr>"
  let ?a = "\<lparr>form = \<lparr>maxFileSize = 10, file = Some ?fl, error = [], form_isLoading = False,
                     inputFiles = Some ?fl\<rparr>,
            page = initialPage, requests = []\<rparr>"
  let ?fetch = "\<lambda>f :: File. NotOk 500 (ErrorJson (Some ''Modello non raggiungibile''))"
  have selected: "file (form ?a) = Some ?fl" by simp
  have failed: "?fetch ?fl = NotOk 500 (ErrorJson (Some ''Modello non raggiungibile''))
      \<and> ''Modello non raggiungibile'' \<noteq> []"
    by simp
  from onSubmit_failed_analysis [OF selected disjI1 [OF failed]] show ?thesis by simp
qed

text \<open>Whatever was selected before, the file that the form keeps is within the limit.\<close>

lemma onFileChange_within_limit:
  "file (onFileChange selected u) = Some f \<Longrightarrow> file_size f \<le> maxFileSize u * 1024 * 1024"
  by (cases selected) (auto simp: onFileChange_def Let_def split: if_splits)

text \<open>
  The form never hands an oversized file to \<open>onSubmit\<close>: selecting a file larger than
  the limit leaves no file selected and shows the size error, and a submission of the form
  in that state sends no request and leaves the page as it is.
\<close>

lemma onFileChange_refuses_oversized:
  assumes "file_size f > maxFileSize u * 1024 * 1024"
  shows "file (onFileChange (Some f) u) = None
         \<and> error (onFileChange (Some f) u) =
             ''File troppo grande. Massimo '' @ show_nat (maxFileSize u) @ ''MB consentiti.''
         \<and> (form a = onFileChange (Some f) u \<longrightarrow>
               requests (onSubmit fetch env a) = requests a \<and> page (onSubmit fetch env a) = page a)"
  using assms by (simp add: onFileChange_def onSubmit_def Let_def)

text \<open>The service answers \<open>PayloadTooLarge\<close> for oversized uploads only.\<close>

lemma analyze_upload_PayloadTooLarge_iff:
  "fst (analyze_upload svc up calls) = Inl PayloadTooLarge \<longleftrightarrow>
     length (upload_bytes up) > maxUploadBytes svc"
  by (auto simp: analyze_upload_def Let_def split: option.splits sum.splits)

text \<open>
  Claim C7. For an upload larger than the configured maximum, the analysis fails with
  \<open>PayloadTooLarge\<close> and the log of the calls to the completion backend is as before:
  no call was made.
\<close>

theorem oversized_upload_rejected:
  assumes "length (upload_bytes up) > maxUploadBytes svc"
  shows "analyze_upload svc up calls = (Inl PayloadTooLarge, calls)"
  using assms by (simp add: analyze_upload_def)

theorem oversized_upload_rejected_witness:
  "analyze_upload
     \<lparr>maxUploadBytes = 4, decodeText = (\<lambda>bytes. Some (map char_of bytes)),
      buildPrompt = (\<lambda>content. ''Estrai i dati: '' @ content),
      generate = (\<lambda>prompt. Inr ''{}''), parseEnvelope = (\<lambda>envelope. Some envelope),
      parseObject = (\<lambda>inner. Some inner)\<rparr>
     \<lparr>upload_name = ''big.txt'', upload_bytes = [104, 101, 108, 108, 111]\<rparr> []
   = (Inl PayloadTooLarge, [])"
proof -
  let ?svc = "\<lparr>maxUploadBytes = 4, decodeText = (\<lambda>bytes. Some (map char_of bytes)),
      buildPrompt = (\<lambda>content. ''Estrai i dati: '' @ content),
      generate = (\<lambda>prompt. Inr ''{}'') :: string \<Rightarrow> string + string,
      parseEnvelope = (\<lambda>envelope. Some envelope),
      parseObject = (\<lambda>inner. Some inner) :: string \<Rightarrow> string option\<rparr>"
  let ?up = "\<lparr>upload_name = ''big.txt'', upload_bytes = [104, 101, 108, 108, 111]\<rparr>"
  have big: "length (upload_bytes ?up) > maxUploadBytes ?svc" by simp
  from oversized_upload_rejected [OF big, of "[]"] show ?thesis by simp
qed

text \<open>
  Claim C10. The limit is \<open>maxFileSize * 1024 * 1024\<close> bytes and the comparison is
  strict: a file of exactly that size is accepted with no error, and a file is refused
  iff it is larger.
\<close>

theorem size_limit_boundary:
  "(file_size f = maxFileSize u * 1024 * 1024 \<longrightarrow>
      file (onFileChange (Some f) u) = Some f \<and> error (onFileChange (Some f) u) = [])
   \<and> (file (onFileChange (Some f) u) = None \<longleftrightarrow> file_size f > maxFileSize u * 1024 * 1024)"
  by (simp add: onFileChange_def Let_def)

theorem size_limit_boundary_witness:
  "file (onFileChange (Some \<lparr>file_name = ''edge.pdf'', file_size = 10485760\<rparr>)
           \<lparr>maxFileSize = 10, file = None, error = [], form_isLoading = False, inputFiles = None\<rparr>)
   = Some \<lparr>file_name = ''edge.pdf'', file_size = 10485760\<rparr>"
proof -
  let ?f = "\<lparr>file_name = ''edge.pdf'', file_size = 10485760\<rparr>"
  let ?u = "\<lparr>maxFileSize = 10, file = None, error = [], form_isLoading = False, inputFiles = None\<rparr>"
  have exact: "file_size ?f = maxFileSize ?u * 1024 * 1024" by simp
  from size_limit_boundary [of ?f ?u] exact show ?thesis by (simp only: simp_thms)
qed

section \<open>Paths outside the root\<close>

lemma walk_normalizePath:
  "walk stack segs = Some acc \<Longrightarrow> normalizePath (stack @ base) segs = rev (acc @ base)"
proof (induction segs arbitrary: stack)
  case Nil
  then show ?case by simp
next
  case (Cons s ss)
  show ?case
  proof (cases "s = ''..''")
    case True
    with Cons.prems obtain x up where st: "stack = x # up" and up: "walk up ss = Some acc"
      by (cases stack) auto
    from Cons.IH [OF up] True st show ?thesis by simp
  next
    case False
    show ?thesis
    proof (cases "s = ''.'' \<or> s = []")
      case True
      with False Cons.prems have "walk stack ss = Some acc" by auto
      from Cons.IH [OF this] False True show ?thesis by auto
    next
      case skip: False
      with False Cons.prems have "walk (s # stack) ss = Some acc" by simp
      from Cons.IH [OF this] False skip show ?thesis by simp
    qed
  qed
qed

lemma normalizePath_append:
  "normalizePath stack (xs @ ys) = normalizePath (rev (normalizePath stack xs)) ys"
  by (induction xs arbitrary: stack) simp_all

text \<open>A relative path that the walk accepts points below the root.\<close>

lemma resolve_inside:
  assumes root: "normalizePath [] root = root"
    and rel: "\<not> absolute p"
    and ok: "canonicalize (segments p) = Some rel"
  shows "resolve root p = root @ rel"
proof -
  from ok obtain acc where acc: "walk [] (segments p) = Some acc" and r: "rel = rev acc"
    by (auto simp: canonicalize_def)
  have "resolve root p = normalizePath (rev root) (segments p)"
    using rel by (simp add: resolve_def normalizePath_append root)
  also have "\<dots> = rev (acc @ rev root)"
    using walk_normalizePath [OF acc, of "rev root"] by simp
  finally show ?thesis by (simp add: r)
qed

text \<open>
  Claim C9. The root is written without \<open>.\<close>, \<open>..\<close> and empty segments. A path that
  is absolute, or has a \<open>..\<close> segment that leaves the root, or points to a location
  that is not below the root, is refused with \<open>InvalidInput\<close>, and the log of the
  locations read is as before.
\<close>

theorem path_outside_root_rejected:
  assumes "normalizePath [] root = root"
    and "absolute p \<or> canonicalize (segments p) = None \<or> outsideRoot root p"
  shows "analyze_path root fs rest p reads = (Inl InvalidInput, reads)"
proof (cases "absolute p \<or> canonicalize (segments p) = None")
  case True
  then show ?thesis by (auto simp: analyze_path_def)
next
  case False
  then obtain rel where rel: "canonicalize (segments p) = Some rel" and na: "\<not> absolute p"
    by auto
  from resolve_inside [OF assms(1) na rel] have "\<not> outsideRoot root p"
    by (simp add: outsideRoot_def)
  with assms(2) False show ?thesis by simp
qed

theorem path_outside_root_rejected_witness:
  "analyze_path [''srv'', ''docs''] (\<lambda>location. None) (\<lambda>content. Inr content)
     \<lparr>absolute = False, segments = [''..'', ''etc'', ''passwd'']\<rparr> [] = (Inl InvalidInput, [])"
proof -
  have root: "normalizePath [] [''srv'', ''docs''] = [''srv'', ''docs'']" by simp
  have out: "outsideRoot [''srv'', ''docs''] \<lparr>absolute = False, segments = [''..'', ''etc'', ''passwd'']\<rparr>"
    by (simp add: outsideRoot_def resolve_def)
  show ?thesis
    using path_outside_root_rejected [OF root disjI2 [OF disjI2 [OF out]]] .
qed

end
